theory Spec2Isabelle
  imports Complex_Main "HOL-Library.AList"
begin

section \<open>JavaScript numbers\<close>

text \<open>
  Every \<^verbatim>\<open>number\<close> of knobdrag.ts is a \<open>jsnum\<close>: an IEEE 754 double. A finite double
  is the real number it stands for (\<open>Fin 0\<close> is the positive zero, \<open>NZero\<close> the negative
  one). The results of \<^verbatim>\<open>+\<close>, \<^verbatim>\<open>-\<close>, \<^verbatim>\<open>*\<close> and \<^verbatim>\<open>/\<close> are rounded to the nearest double,
  ties to even, with overflow to an infinity and gradual underflow; \<^verbatim>\<open>%\<close>, comparisons,
  \<^verbatim>\<open>Math.min\<close> and \<^verbatim>\<open>Math.max\<close> are exact.
\<close>

datatype jsnum = Fin real | NZero | PInf | NInf | NaN

fun is_inf :: "jsnum \<Rightarrow> bool" where
  "is_inf PInf = True"
| "is_inf NInf = True"
| "is_inf _ = False"

fun is_zero :: "jsnum \<Rightarrow> bool" where
  "is_zero (Fin r) = (r = 0)"
| "is_zero NZero = True"
| "is_zero _ = False"

text \<open>The sign bit, and the real value of a finite number.\<close>

fun neg :: "jsnum \<Rightarrow> bool" where
  "neg (Fin r) = (r < 0)"
| "neg NZero = True"
| "neg NInf = True"
| "neg _ = False"

fun rv :: "jsnum \<Rightarrow> real" where
  "rv (Fin r) = r"
| "rv _ = 0"

definition zero_of :: "bool \<Rightarrow> jsnum" where
  "zero_of s = (if s then NZero else Fin 0)"

definition inf_of :: "bool \<Rightarrow> jsnum" where
  "inf_of s = (if s then NInf else PInf)"

text \<open>
  Rounding. \<open>exponent a\<close> is the binary exponent of \<open>a > 0\<close>, at least -1022 (below
  \<open>2 ^ -1022\<close> the doubles are subnormal and evenly spaced) and at most 1024. A double has 53
  significant bits, so the doubles around \<open>a\<close> are the multiples of \<open>2 ^ (exponent a - 52)\<close>;
  \<open>rnd r\<close> is the nearest of them, the one with the even multiplier when two are equally
  near, an infinity when that is \<open>2 ^ 1024\<close> or more, and a zero with the sign of \<open>r\<close> when
  that is zero. \<open>is_double r\<close>: the real number \<open>r\<close> is a double.
\<close>

definition pow2 :: "int \<Rightarrow> real" where
  "pow2 e = (if 0 \<le> e then 2 ^ nat e else 1 / 2 ^ nat (- e))"

fun exponent_up :: "real \<Rightarrow> int \<Rightarrow> nat \<Rightarrow> int" where
  "exponent_up a e 0 = e"
| "exponent_up a e (Suc n) = (if pow2 (e + 1) \<le> a then exponent_up a (e + 1) n else e)"

fun exponent_down :: "real \<Rightarrow> int \<Rightarrow> nat \<Rightarrow> int" where
  "exponent_down a e 0 = e"
| "exponent_down a e (Suc n) = (if pow2 e \<le> a then e else exponent_down a (e - 1) n)"

definition exponent :: "real \<Rightarrow> int" where
  "exponent a = (if 1 \<le> a then exponent_up a 0 1024 else exponent_down a (- 1) 1021)"

definition round_half_even :: "real \<Rightarrow> int" where
  "round_half_even q =
     (let n = \<lfloor>q\<rfloor>; f = q - of_int n
      in if f < 1 / 2 then n else if 1 / 2 < f then n + 1 else if even n then n else n + 1)"

definition rnd :: "real \<Rightarrow> jsnum" where
  "rnd r =
     (if r = 0 then Fin 0
      else (let a = \<bar>r\<bar>;
                e = exponent a;
                u = pow2 (e - 52);
                n = round_half_even (a / u);
                m = of_int n * u
            in if n = 0 then zero_of (r < 0)
               else if 1024 \<le> e then inf_of (r < 0)
               else if e = 1023 \<and> n = 2 ^ 53 then inf_of (r < 0)
               else Fin (if r < 0 then - m else m)))"

definition is_double :: "real \<Rightarrow> bool" where
  "is_double r = (rnd r = Fin r)"

text \<open>
  Unary minus, \<^verbatim>\<open>+\<close> and \<^verbatim>\<open>-\<close>. A sum of zeros is negative only when both are, and a
  sum that is exactly zero otherwise is the positive zero.
\<close>

fun jneg :: "jsnum \<Rightarrow> jsnum" where
  "jneg (Fin r) = (if r = 0 then NZero else Fin (- r))"
| "jneg NZero = Fin 0"
| "jneg PInf = NInf"
| "jneg NInf = PInf"
| "jneg NaN = NaN"

definition jadd :: "jsnum \<Rightarrow> jsnum \<Rightarrow> jsnum" where
  "jadd x y =
     (if x = NaN \<or> y = NaN then NaN
      else if is_inf x then (if is_inf y \<and> x \<noteq> y then NaN else x)
      else if is_inf y then y
      else if x = NZero \<and> y = NZero then NZero
      else rnd (rv x + rv y))"

definition jsub :: "jsnum \<Rightarrow> jsnum \<Rightarrow> jsnum" where
  "jsub x y = jadd x (jneg y)"


definition jdiv :: "jsnum \<Rightarrow> jsnum \<Rightarrow> jsnum" where
  "jdiv x y =
     (if x = NaN \<or> y = NaN then NaN
      else if is_inf x then (if is_inf y then NaN else inf_of (neg x \<noteq> neg y))
      else if is_inf y then zero_of (neg x \<noteq> neg y)
      else if is_zero y then (if is_zero x then NaN else inf_of (neg x \<noteq> neg y))
      else if is_zero x then zero_of (neg x \<noteq> neg y)
      else rnd (rv x / rv y))"

text \<open>
  \<^verbatim>\<open>%\<close> truncates the quotient towards zero, so the remainder has the sign of the
  dividend (also when it is zero). The remainder of two doubles is a double, so nothing
  is rounded.
\<close>

definition trunc :: "real \<Rightarrow> int" where
  "trunc x = (if x < 0 then - \<lfloor>- x\<rfloor> else \<lfloor>x\<rfloor>)"

definition jrem :: "jsnum \<Rightarrow> jsnum \<Rightarrow> jsnum" where
  "jrem n d =
     (if n = NaN \<or> d = NaN then NaN
      else if is_inf n then NaN
      else if is_inf d then n
      else if is_zero d then NaN
      else if is_zero n then n
      else (let r = rv n - rv d * of_int (trunc (rv n / rv d))
            in if r = 0 \<and> rv n < 0 then NZero else Fin r))"

text \<open>Comparisons: every comparison with NaN is false, and the two zeros are equal.\<close>

definition jlt :: "jsnum \<Rightarrow> jsnum \<Rightarrow> bool" where
  "jlt x y =
     (if x = NaN \<or> y = NaN then False
      else if x = PInf \<or> y = NInf then False
      else if y = PInf \<or> x = NInf then True
      else rv x < rv y)"

definition jgt :: "jsnum \<Rightarrow> jsnum \<Rightarrow> bool" where
  "jgt x y = jlt y x"

definition jle :: "jsnum \<Rightarrow> jsnum \<Rightarrow> bool" where
  "jle x y = (x \<noteq> NaN \<and> y \<noteq> NaN \<and> \<not> jlt y x)"

text \<open>\<^verbatim>\<open>===\<close> on numbers, and the truth value of a number in a condition.\<close>

definition jseq :: "jsnum \<Rightarrow> jsnum \<Rightarrow> bool" where
  "jseq x y = (x \<noteq> NaN \<and> y \<noteq> NaN \<and> \<not> jlt x y \<and> \<not> jlt y x)"

definition truthy :: "jsnum \<Rightarrow> bool" where
  "truthy x = (x \<noteq> NaN \<and> \<not> is_zero x)"

text \<open>\<^verbatim>\<open>Math.max\<close> and \<^verbatim>\<open>Math.min\<close>: NaN is contagious and \<open>-0 < +0\<close>.\<close>

definition math_max :: "jsnum \<Rightarrow> jsnum \<Rightarrow> jsnum" where
  "math_max a b =
     (if a = NaN \<or> b = NaN then NaN
      else if jlt a b then b
      else if jlt b a then a
      else if a = NZero then b else a)"

definition math_min :: "jsnum \<Rightarrow> jsnum \<Rightarrow> jsnum" where
  "math_min a b =
     (if a = NaN \<or> b = NaN then NaN
      else if jlt a b then a
      else if jlt b a then b
      else if a = NZero then a else b)"

text \<open>\<^verbatim>\<open>function clamp(a, b, c) { return Math.min(Math.max(a, b), c); }\<close>\<close>

definition clamp :: "jsnum \<Rightarrow> jsnum \<Rightarrow> jsnum \<Rightarrow> jsnum" where
  "clamp a b c = math_min (math_max a b) c"

section \<open>The page: listeners, pointer capture, stores\<close>

text \<open>
  Elements, stores and pointers are named by numbers. A listener is identified by its
  function object: the closures that one call of \<^verbatim>\<open>knobdrag\<close>, \<^verbatim>\<open>pointercapture\<close> or
  \<^verbatim>\<open>pointerlock\<close> creates carry the number of that call, the two module-level functions
  \<^verbatim>\<open>preventDefault\<close> and \<^verbatim>\<open>stopPropagation\<close> are shared by all calls, and \<open>OtherH\<close>
  stands for listeners of other code.
\<close>

datatype target = Elem nat | Document

datatype handler =
    KnobMoveH nat
  | KnobReleaseH nat
  | PointerDownH nat
  | EnterLockH nat
  | ExitLockH nat
  | LockChangeH nat
  | PreventDefaultH
  | StopPropagationH
  | OtherH nat

fun closure_id :: "handler \<Rightarrow> nat option" where
  "closure_id (KnobMoveH k) = Some k"
| "closure_id (KnobReleaseH k) = Some k"
| "closure_id (PointerDownH k) = Some k"
| "closure_id (EnterLockH k) = Some k"
| "closure_id (ExitLockH k) = Some k"
| "closure_id (LockChangeH k) = Some k"
| "closure_id _ = None"

record world =
  listeners :: "target \<Rightarrow> (string \<times> handler) list"
  hasPointerCapture :: "nat \<Rightarrow> nat \<Rightarrow> bool"
  pointerLockElement :: "nat option"
  stores :: "nat \<Rightarrow> jsnum"
  selected :: "nat list"
  closures :: nat

text \<open>
  \<open>hasPointerCapture w e p\<close>: element \<open>e\<close> has captured pointer \<open>p\<close>. \<open>selected\<close> logs the
  calls of \<^verbatim>\<open>select()\<close> on input elements, \<open>closures\<close> counts the closure-creating calls
  made so far and so names the next one.

  \<^verbatim>\<open>addEventListener\<close> ignores a listener that is already registered for the type;
  \<^verbatim>\<open>removeEventListener\<close> removes the registered one, if any.
\<close>

definition addEventListener :: "target \<Rightarrow> string \<Rightarrow> handler \<Rightarrow> world \<Rightarrow> world" where
  "addEventListener t ty h w =
     (if (ty, h) \<in> set (listeners w t) then w
      else w\<lparr>listeners := (listeners w)(t := listeners w t @ [(ty, h)])\<rparr>)"

definition removeEventListener :: "target \<Rightarrow> string \<Rightarrow> handler \<Rightarrow> world \<Rightarrow> world" where
  "removeEventListener t ty h w =
     w\<lparr>listeners := (listeners w)(t := removeAll (ty, h) (listeners w t))\<rparr>"

definition select :: "nat \<Rightarrow> world \<Rightarrow> world" where
  "select e w = w\<lparr>selected := selected w @ [e]\<rparr>"

text \<open>
  A Svelte \<^verbatim>\<open>writable\<close> (svelte/store): \<^verbatim>\<open>update(fn)\<close> is \<^verbatim>\<open>set(fn(value))\<close>, and
  \<^verbatim>\<open>set\<close> keeps the old value unless \<^verbatim>\<open>safe_not_equal(value, new_value)\<close>, which for
  numbers is \<^verbatim>\<open>a != a ? b == b : a !== b\<close>. Subscribers are not modelled.
\<close>

definition safe_not_equal :: "jsnum \<Rightarrow> jsnum \<Rightarrow> bool" where
  "safe_not_equal a b = (if a = NaN then b \<noteq> NaN else \<not> jseq a b)"

definition writable_set :: "nat \<Rightarrow> jsnum \<Rightarrow> world \<Rightarrow> world" where
  "writable_set st v w =
     (if safe_not_equal (stores w st) v then w\<lparr>stores := (stores w)(st := v)\<rparr> else w)"

section \<open>knobdrag.ts\<close>

record Params =
  min_p :: jsnum
  max_p :: jsnum
  step :: jsnum
  space :: jsnum
  valueStore :: nat
  inputElem :: nat

record pointer_event =
  movementY :: jsnum
  pointerId :: nat
  button :: nat

definition hasCapture :: "nat \<Rightarrow> nat \<Rightarrow> world \<Rightarrow> bool" where
  "hasCapture pid e w = (hasPointerCapture w e pid \<or> pointerLockElement w = Some e)"

subsection \<open>The two behaviour modules\<close>

text \<open>
  What \<^verbatim>\<open>pointercapture(elem)\<close> and \<^verbatim>\<open>pointerlock(elem)\<close> return is an object with a
  \<^verbatim>\<open>destroy\<close> method; an \<open>action\<close> names the call that made it.
\<close>

datatype action = CaptureAction nat nat | LockAction nat nat

definition pointercapture :: "nat \<Rightarrow> world \<Rightarrow> action \<times> world" where
  "pointercapture e w =
     (let k = closures w;
          w1 = w\<lparr>closures := Suc k\<rparr>;
          w2 = addEventListener (Elem e) ''pointerdown'' (PointerDownH k) w1;
          w3 = addEventListener (Elem e) ''touchmove'' PreventDefaultH w2
      in (CaptureAction e k, w3))"

definition pointerlock :: "nat \<Rightarrow> world \<Rightarrow> action \<times> world" where
  "pointerlock e w =
     (let k = closures w;
          w1 = w\<lparr>closures := Suc k\<rparr>;
          w2 = addEventListener (Elem e) ''mousedown'' (EnterLockH k) w1;
          w3 = addEventListener (Elem e) ''mouseup'' (ExitLockH k) w2;
          w4 = addEventListener Document ''pointerlockchange'' (LockChangeH k) w3
      in (LockAction e k, w4))"

fun destroy_action :: "action \<Rightarrow> world \<Rightarrow> world" where
  "destroy_action (CaptureAction e k) w =
     (let w1 = removeEventListener (Elem e) ''pointerdown'' (PointerDownH k) w
      in removeEventListener (Elem e) ''touchmove'' PreventDefaultH w1)"
| "destroy_action (LockAction e k) w =
     (let w1 = removeEventListener (Elem e) ''mousedown'' (EnterLockH k) w;
          w2 = removeEventListener (Elem e) ''mouseup'' (ExitLockH k) w1
      in removeEventListener Document ''pointerlockchange'' (LockChangeH k) w2)"

text \<open>
  The bodies of the closures \<^verbatim>\<open>pointerDown\<close> and \<^verbatim>\<open>lockChange\<close>. (\<^verbatim>\<open>enterLock\<close> and
  \<^verbatim>\<open>exitLock\<close> only ask the browser for a change of the pointer lock, which arrives
  later as a change of \<open>pointerLockElement\<close>.)
\<close>

definition pointerDown :: "nat \<Rightarrow> pointer_event \<Rightarrow> world \<Rightarrow> world" where
  "pointerDown e ev w =
     (if button ev \<noteq> 2
      then w\<lparr>hasPointerCapture := (hasPointerCapture w)(e := (hasPointerCapture w e)(pointerId ev := True))\<rparr>
      else w)"

definition lockChange :: "nat \<Rightarrow> world \<Rightarrow> world" where
  "lockChange e w =
     (if pointerLockElement w = Some e
      then addEventListener (Elem e) ''pointermove'' StopPropagationH w
      else removeEventListener (Elem e) ''pointermove'' StopPropagationH w)"

subsection \<open>The attachment\<close>

text \<open>
  The variables that the closures of one \<^verbatim>\<open>knobdrag\<close> call share, together with the
  world they act on. \<open>self\<close> is the number of the call, which identifies its \<^verbatim>\<open>knobMove\<close>
  and \<^verbatim>\<open>knobRelease\<close>; \<open>actions\<close> is the \<^verbatim>\<open>Map\<close> in insertion order.
\<close>

record state =
  elem :: nat
  self :: nat
  params :: Params
  actions :: "(string \<times> action) list"
  range_k :: jsnum
  scaleFactor :: jsnum
  rawValue :: "jsnum option"
  moved :: bool
  world :: world

text \<open>The callback given to \<^verbatim>\<open>options.subscribe\<close>, applied to \<^verbatim>\<open>$options.lockCursor\<close>.\<close>

definition options_callback :: "bool \<Rightarrow> state \<Rightarrow> state" where
  "options_callback lockCursor s =
     (let w1 = (case map_of (actions s) ''pointerlock'' of
                  None \<Rightarrow> world s
                | Some a \<Rightarrow> destroy_action a (world s))
      in if lockCursor
         then (let (a, w2) = pointerlock (elem s) w1
               in s\<lparr>actions := AList.update ''pointerlock'' a (actions s), world := w2\<rparr>)
         else s\<lparr>actions := AList.delete ''pointerlock'' (actions s), world := w1\<rparr>)"

definition scaleMovement :: "state \<Rightarrow> jsnum \<Rightarrow> jsnum" where
  "scaleMovement s distance = jdiv distance (scaleFactor s)"

definition floorToStep :: "Params \<Rightarrow> jsnum \<Rightarrow> jsnum" where
  "floorToStep p v =
     (let surplus = jrem v (step p);
          surplus' = (if jgt (jadd surplus (rnd (1 / 1000000))) (step p) then Fin 0 else surplus)
      in jsub v surplus')"

text \<open>
  The function given to \<^verbatim>\<open>valueStore.update\<close> in \<^verbatim>\<open>knobMove\<close>: from the store's value it
  computes the value to store, and it assigns \<open>moved\<close> and \<open>rawValue\<close> on the way.
\<close>

definition knobMove_update :: "jsnum \<Rightarrow> jsnum \<Rightarrow> state \<Rightarrow> jsnum \<times> state" where
  "knobMove_update my v s =
     (let s1 = s\<lparr>moved := True\<rparr>;
          raw0 = (case rawValue s1 of None \<Rightarrow> v | Some r \<Rightarrow> r);
          raw1 = clamp (min_p (params s1)) (jsub raw0 (scaleMovement s1 my)) (max_p (params s1));
          s2 = s1\<lparr>rawValue := Some raw1\<rparr>
      in (floorToStep (params s2) raw1, s2))"

definition knobMove :: "pointer_event \<Rightarrow> state \<Rightarrow> state" where
  "knobMove ev s =
     (if truthy (movementY ev) \<and> hasCapture (pointerId ev) (elem s) (world s)
      then (let st = valueStore (params s);
                (v, s') = knobMove_update (movementY ev) (stores (world s) st) s
            in s'\<lparr>world := writable_set st v (world s')\<rparr>)
      else s)"

definition knobRelease :: "state \<Rightarrow> state" where
  "knobRelease s =
     (let s1 = (if moved s = False
                then s\<lparr>world := select (inputElem (params s)) (world s)\<rparr>
                else s)
      in s1\<lparr>moved := False\<rparr>)"

text \<open>
  \<^verbatim>\<open>knobdrag(elem, params)\<close>. The options store is not part of the file: its value at
  the time of the call, which \<^verbatim>\<open>subscribe\<close> hands to the callback at once, is the
  parameter \<open>lockCursor\<close>. The callback reads and writes \<open>actions\<close> and the world only, so
  it can be applied to the record with the later variables already in place.
\<close>

definition knobdrag :: "nat \<Rightarrow> Params \<Rightarrow> bool \<Rightarrow> world \<Rightarrow> state" where
  "knobdrag e p lockCursor w =
     (let k = closures w;
          (cap, w1) = pointercapture e (w\<lparr>closures := Suc k\<rparr>);
          r = jsub (max_p p) (min_p p);
          s0 = \<lparr>elem = e, self = k, params = p, actions = [(''pointercapture'', cap)],
                range_k = r, scaleFactor = jdiv (space p) r,
                rawValue = None, moved = False, world = w1\<rparr>;
          s1 = options_callback lockCursor s0;
          w2 = addEventListener (Elem e) ''pointermove'' (KnobMoveH k) (world s1);
          w3 = addEventListener (Elem e) ''pointerup'' (KnobReleaseH k) w2
      in s1\<lparr>world := w3\<rparr>)"

text \<open>
  The two methods of the object that \<^verbatim>\<open>knobdrag\<close> returns. (\<^verbatim>\<open>makeValueStore\<close>, the other
  export of the file, only creates a \<^verbatim>\<open>writable\<close> and subscribes a callback of the
  component for the component's lifetime; no property below depends on it.)
\<close>

definition destroy :: "state \<Rightarrow> state" where
  "destroy s =
     (let w1 = fold (\<lambda>(name, a). destroy_action a) (actions s) (world s);
          w2 = removeEventListener (Elem (elem s)) ''pointermove'' (KnobMoveH (self s)) w1;
          w3 = removeEventListener (Elem (elem s)) ''pointerup'' (KnobMoveH (self s)) w2
      in s\<lparr>world := w3\<rparr>)"

definition update :: "Params \<Rightarrow> state \<Rightarrow> state" where
  "update newParams s = s\<lparr>params := newParams\<rparr>"

subsection \<open>Runs\<close>

text \<open>
  What can happen to an attachment: its handlers and methods are called, the options
  store notifies, and the page around it changes what the handlers read (a store is set
  from outside, the browser takes a pointer capture away, the pointer lock changes).
\<close>

datatype event =
    Move pointer_event
  | Release
  | Notify bool
  | Update Params
  | Destroy
  | Down pointer_event
  | LockChanged
  | StoreSet nat jsnum
  | LoseCapture nat
  | SetLock "nat option"

fun step_ev :: "event \<Rightarrow> state \<Rightarrow> state" where
  "step_ev (Move ev) s = knobMove ev s"
| "step_ev Release s = knobRelease s"
| "step_ev (Notify b) s = options_callback b s"
| "step_ev (Update p) s = update p s"
| "step_ev Destroy s = destroy s"
| "step_ev (Down ev) s = s\<lparr>world := pointerDown (elem s) ev (world s)\<rparr>"
| "step_ev LockChanged s = s\<lparr>world := lockChange (elem s) (world s)\<rparr>"
| "step_ev (StoreSet st v) s = s\<lparr>world := writable_set st v (world s)\<rparr>"
| "step_ev (LoseCapture pid) s =
     s\<lparr>world := (world s)\<lparr>hasPointerCapture :=
        (hasPointerCapture (world s))(elem s := (hasPointerCapture (world s) (elem s))(pid := False))\<rparr>\<rparr>"
| "step_ev (SetLock l) s = s\<lparr>world := (world s)\<lparr>pointerLockElement := l\<rparr>\<rparr>"

fun run :: "event list \<Rightarrow> state \<Rightarrow> state" where
  "run [] s = s"
| "run (e # es) s = run es (step_ev e s)"

text \<open>A pointer move is effective when \<^verbatim>\<open>knobMove\<close> enters its \<^verbatim>\<open>if\<close>.\<close>

fun effective :: "state \<Rightarrow> event \<Rightarrow> bool" where
  "effective s (Move ev) = (truthy (movementY ev) \<and> hasCapture (pointerId ev) (elem s) (world s))"
| "effective s _ = False"


subsection \<open>Pointer-lock listeners\<close>

text \<open>
  The three listeners of the \<^verbatim>\<open>pointerlock\<close> call number \<open>k\<close> on element \<open>e\<close>: all
  registered, or none of them. A world is fresh when every closure among its listeners
  was made by a call that is already counted; an attachment keeps its world fresh and its
  \<open>pointerlock\<close> entry, if any, that of a counted call on its own element.
\<close>

definition lock_installed :: "nat \<Rightarrow> nat \<Rightarrow> world \<Rightarrow> bool" where
  "lock_installed e k w =
     ((''mousedown'', EnterLockH k) \<in> set (listeners w (Elem e)) \<and>
      (''mouseup'', ExitLockH k) \<in> set (listeners w (Elem e)) \<and>
      (''pointerlockchange'', LockChangeH k) \<in> set (listeners w Document))"

definition lock_removed :: "nat \<Rightarrow> nat \<Rightarrow> world \<Rightarrow> bool" where
  "lock_removed e k w =
     ((''mousedown'', EnterLockH k) \<notin> set (listeners w (Elem e)) \<and>
      (''mouseup'', ExitLockH k) \<notin> set (listeners w (Elem e)) \<and>
      (''pointerlockchange'', LockChangeH k) \<notin> set (listeners w Document))"

definition fresh_world :: "world \<Rightarrow> bool" where
  "fresh_world w = (\<forall>t ty h k. (ty, h) \<in> set (listeners w t) \<and> closure_id h = Some k \<longrightarrow> k < closures w)"

definition lock_entry_ok :: "state \<Rightarrow> bool" where
  "lock_entry_ok s =
     (fresh_world (world s) \<and>
      (\<forall>a. map_of (actions s) ''pointerlock'' = Some a
           \<longrightarrow> (\<exists>k. a = LockAction (elem s) k \<and> k < closures (world s))))"

subsection \<open>A concrete page\<close>

text \<open>
  A page without listeners whose stores all hold 5, and a knob from 1 to 10 in steps of 3
  over a drag distance of 700 pixels.
\<close>

definition empty_world :: world where
  "empty_world =
     \<lparr>listeners = (\<lambda>t. []), hasPointerCapture = (\<lambda>e p. False), pointerLockElement = None,
      stores = (\<lambda>st. Fin 5), selected = [], closures = 0\<rparr>"

definition example_params :: Params where
  "example_params =
     \<lparr>min_p = Fin 1, max_p = Fin 10, step = Fin 3, space = Fin 700,
      valueStore = 0, inputElem = 1\<rparr>"

definition pointer0 :: "jsnum \<Rightarrow> pointer_event" where
  "pointer0 my = \<lparr>movementY = my, pointerId = 0, button = 0\<rparr>"

definition example_params2 :: Params where
  "example_params2 =
     \<lparr>min_p = Fin 0, max_p = Fin 100, step = Fin 1, space = Fin 100,
      valueStore = 2, inputElem = 3\<rparr>"

lemmas model_defs = knobdrag_def pointercapture_def pointerlock_def options_callback_def
  addEventListener_def removeEventListener_def destroy_def knobRelease_def select_def
  knobMove_def knobMove_update_def hasCapture_def update_def pointerDown_def lockChange_def
  writable_set_def empty_world_def example_params_def example_params2_def pointer0_def

section \<open>Basic facts\<close>

text \<open>Which variables each operation leaves alone.\<close>

lemma options_callback_fields [simp]:
  "elem (options_callback b s) = elem s"
  "self (options_callback b s) = self s"
  "params (options_callback b s) = params s"
  "range_k (options_callback b s) = range_k s"
  "scaleFactor (options_callback b s) = scaleFactor s"
  "rawValue (options_callback b s) = rawValue s"
  "moved (options_callback b s) = moved s"
  by (simp_all add: options_callback_def Let_def split: prod.splits)

lemma knobMove_fields [simp]:
  "elem (knobMove ev s) = elem s"
  "self (knobMove ev s) = self s"
  "params (knobMove ev s) = params s"
  "range_k (knobMove ev s) = range_k s"
  "scaleFactor (knobMove ev s) = scaleFactor s"
  "actions (knobMove ev s) = actions s"
  by (simp_all add: knobMove_def knobMove_update_def Let_def)

lemma knobRelease_fields [simp]:
  "elem (knobRelease s) = elem s"
  "self (knobRelease s) = self s"
  "params (knobRelease s) = params s"
  "range_k (knobRelease s) = range_k s"
  "scaleFactor (knobRelease s) = scaleFactor s"
  "rawValue (knobRelease s) = rawValue s"
  "actions (knobRelease s) = actions s"
  "moved (knobRelease s) = False"
  by (simp_all add: knobRelease_def Let_def)

lemma destroy_fields [simp]:
  "elem (destroy s) = elem s"
  "self (destroy s) = self s"
  "params (destroy s) = params s"
  "range_k (destroy s) = range_k s"
  "scaleFactor (destroy s) = scaleFactor s"
  "rawValue (destroy s) = rawValue s"
  "actions (destroy s) = actions s"
  "moved (destroy s) = moved s"
  by (simp_all add: destroy_def Let_def)

lemma update_fields [simp]:
  "elem (update p s) = elem s"
  "self (update p s) = self s"
  "params (update p s) = p"
  "range_k (update p s) = range_k s"
  "scaleFactor (update p s) = scaleFactor s"
  "rawValue (update p s) = rawValue s"
  "actions (update p s) = actions s"
  "moved (update p s) = moved s"
  "world (update p s) = world s"
  by (simp_all add: update_def)

lemma knobdrag_fields [simp]:
  "elem (knobdrag e p b w) = e"
  "self (knobdrag e p b w) = closures w"
  "params (knobdrag e p b w) = p"
  "range_k (knobdrag e p b w) = jsub (max_p p) (min_p p)"
  "scaleFactor (knobdrag e p b w) = jdiv (space p) (jsub (max_p p) (min_p p))"
  "rawValue (knobdrag e p b w) = None"
  "moved (knobdrag e p b w) = False"
  by (simp_all add: knobdrag_def Let_def split: prod.splits)

lemma step_ev_fixed [simp]:
  "elem (step_ev e s) = elem s"
  "self (step_ev e s) = self s"
  "range_k (step_ev e s) = range_k s"
  "scaleFactor (step_ev e s) = scaleFactor s"
  by (cases e; simp)+

lemma run_fixed [simp]:
  "elem (run es s) = elem s"
  "self (run es s) = self s"
  "range_k (run es s) = range_k s"
  "scaleFactor (run es s) = scaleFactor s"
  by (induction es arbitrary: s; simp)+

lemma run_snoc: "run (es @ [e]) s = step_ev e (run es s)"
  by (induction es arbitrary: s) simp_all



text \<open>What an effective move does, in one equation.\<close>

lemma knobMove_effective:
  "effective s (Move ev) \<Longrightarrow>
   knobMove ev s =
     (let raw0 = (case rawValue s of None \<Rightarrow> stores (world s) (valueStore (params s)) | Some r \<Rightarrow> r);
          raw1 = clamp (min_p (params s)) (jsub raw0 (jdiv (movementY ev) (scaleFactor s)))
                   (max_p (params s))
      in s\<lparr>moved := True, rawValue := Some raw1,
            world := writable_set (valueStore (params s)) (floorToStep (params s) raw1) (world s)\<rparr>)"
  by (simp add: knobMove_def knobMove_update_def scaleMovement_def Let_def)

text \<open>Traces that contain an effective move.\<close>

lemma effective_is_Move: "effective s e \<Longrightarrow> \<exists>ev. e = Move ev"
  by (cases e) simp_all

section \<open>Releasing the pointer\<close>

text \<open>
  C10. A pointerup handled while \<open>moved\<close> is false calls \<^verbatim>\<open>select()\<close> on the input
  element of the current params; while \<open>moved\<close> is true it does not. Clearing \<open>moved\<close> is
  the only other effect.
\<close>

theorem knobRelease_selects_unless_moved:
  "knobRelease s =
     (if moved s then s\<lparr>moved := False\<rparr>
      else s\<lparr>world := (world s)\<lparr>selected := selected (world s) @ [inputElem (params s)]\<rparr>,
             moved := False\<rparr>)"
  by (simp add: knobRelease_def select_def)

theorem knobRelease_selects_unless_moved_witness:
  "selected (world (knobRelease (knobdrag 0 example_params False empty_world))) = [1] \<and>
   selected (world (knobRelease ((knobdrag 0 example_params False empty_world)\<lparr>moved := True\<rparr>))) = []"
  using knobRelease_selects_unless_moved [of "knobdrag 0 example_params False empty_world"]
    knobRelease_selects_unless_moved [of "(knobdrag 0 example_params False empty_world)\<lparr>moved := True\<rparr>"]
  by (simp add: model_defs Let_def)

section \<open>Pointer moves that do nothing\<close>

text \<open>
  C5. A pointermove whose \<open>movementY\<close> is zero, or for which the element neither holds the
  capture of the event's pointer nor is the pointer-lock element, leaves everything as it
  is: the value store, \<open>rawValue\<close> and \<open>moved\<close> in particular.
\<close>

theorem knobMove_frame:
  "is_zero (movementY ev) \<or> \<not> hasCapture (pointerId ev) (elem s) (world s)
   \<Longrightarrow> knobMove ev s = s"
  by (auto simp: knobMove_def truthy_def)

theorem knobMove_frame_witness:
  "(is_zero (movementY (pointer0 (Fin 0)))
      \<or> \<not> hasCapture (pointerId (pointer0 (Fin 0))) (elem (knobdrag 0 example_params False empty_world))
             (world (knobdrag 0 example_params False empty_world)))
   \<and> knobMove (pointer0 (Fin 0)) (knobdrag 0 example_params False empty_world)
       = knobdrag 0 example_params False empty_world"
  using knobMove_frame [of "pointer0 (Fin 0)" "knobdrag 0 example_params False empty_world"]
  by (simp add: pointer0_def)

section \<open>Detaching\<close>

text \<open>
  C3 asks that \<^verbatim>\<open>destroy()\<close> removes every listener that the attachment added. It does
  not: \<^verbatim>\<open>destroy\<close> calls \<^verbatim>\<open>removeEventListener("pointerup", knobMove)\<close>, and the listener
  registered for pointerup is \<^verbatim>\<open>knobRelease\<close>. On a page whose element had no listener,
  attaching and destroying leaves the pointerup listener behind.
\<close>

theorem destroy_leaves_pointerup_listener:
  "listeners empty_world (Elem 0) = [] \<and>
   listeners (world (destroy (knobdrag 0 example_params False empty_world))) (Elem 0)
     = [(''pointerup'', KnobReleaseH 0)]"
  by (simp add: model_defs Let_def)

section \<open>Updating the params\<close>

text \<open>
  C8. \<^verbatim>\<open>update(newParams)\<close> replaces the params, whatever happened before, and leaves
  \<open>range\<close> and \<open>scaleFactor\<close> as computed at the attachment: the next effective move still
  divides the distance by the original \<open>space / (max - min)\<close>, while it clamps with the new
  \<open>min\<close> and \<open>max\<close>, steps with the new \<open>step\<close> and writes to the new store, and a release
  selects the new input element.
\<close>

theorem update_keeps_scale:
  assumes "s = update newParams (run es (knobdrag e p lockCursor w))"
    and "scale0 = jdiv (space p) (jsub (max_p p) (min_p p))"
  shows "params s = newParams \<and> range_k s = jsub (max_p p) (min_p p) \<and> scaleFactor s = scale0 \<and>
      scaleMovement s d = jdiv d scale0 \<and>
      (effective s (Move ev) \<longrightarrow>
         (let raw0 = (case rawValue s of None \<Rightarrow> stores (world s) (valueStore newParams)
                      | Some r \<Rightarrow> r);
              raw1 = clamp (min_p newParams) (jsub raw0 (jdiv (movementY ev) scale0))
                       (max_p newParams)
          in rawValue (knobMove ev s) = Some raw1 \<and>
             world (knobMove ev s)
               = writable_set (valueStore newParams) (floorToStep newParams raw1) (world s))) \<and>
      (\<not> moved s \<longrightarrow>
         selected (world (knobRelease s)) = selected (world s) @ [inputElem newParams])"
  using assms
  by (simp add: Let_def knobMove_effective scaleMovement_def knobRelease_def select_def
           del: effective.simps cong: option.case_cong)

text \<open>
  The knob from 1 to 10 over 700 pixels is updated to one from 0 to 100 over 100 pixels:
  a move of 70 pixels still counts as \<open>70 / (700 / 9)\<close>, and the raw value goes from 5 to
  the double nearest to 4.1.
\<close>

theorem update_keeps_scale_witness:
  "effective (update example_params2
       (run [Down (pointer0 (Fin 0))] (knobdrag 0 example_params False empty_world)))
     (Move (pointer0 (Fin 70))) \<and>
   rawValue (knobMove (pointer0 (Fin 70))
      (update example_params2
        (run [Down (pointer0 (Fin 0))] (knobdrag 0 example_params False empty_world))))
     = Some (rnd (41 / 10)) \<and>
   stores (world (knobMove (pointer0 (Fin 70))
      (update example_params2
        (run [Down (pointer0 (Fin 0))] (knobdrag 0 example_params False empty_world))))) 2
     = Fin 4"
proof -
  let ?s = "update example_params2
    (run [Down (pointer0 (Fin 0))] (knobdrag 0 example_params False empty_world))"
  let ?ev = "pointer0 (Fin 70)"
  have h: "effective ?s (Move ?ev)" by code_simp
  have c1: "(case rawValue ?s of None \<Rightarrow> stores (world ?s) (valueStore example_params2)
             | Some r \<Rightarrow> r) = Fin 5"
    by code_simp
  have c2: "clamp (min_p example_params2)
      (jsub (Fin 5) (jdiv (movementY ?ev)
         (jdiv (space example_params) (jsub (max_p example_params) (min_p example_params)))))
      (max_p example_params2) = rnd (41 / 10)"
    by code_simp
  have c3: "stores (writable_set (valueStore example_params2)
      (floorToStep example_params2 (rnd (41 / 10))) (world ?s)) 2 = Fin 4"
    by code_simp
  from update_keeps_scale [OF refl refl, of example_params2 "[Down (pointer0 (Fin 0))]" 0
      example_params False empty_world _ "?ev"] h
  have "rawValue (knobMove ?ev ?s) = Some (rnd (41 / 10)) \<and>
        world (knobMove ?ev ?s)
          = writable_set (valueStore example_params2)
              (floorToStep example_params2 (rnd (41 / 10))) (world ?s)"
    unfolding Let_def c1 c2 by blast
  with h c3 show ?thesis by simp
qed

section \<open>The moved flag\<close>

lemma moved_step_ev:
  "moved (step_ev e s) = (e \<noteq> Release \<and> (moved s \<or> effective s e))"
  by (cases e) (auto simp: knobMove_def knobMove_update_def Let_def)

lemma moved_run_snoc:
  assumes "\<not> moved s0"
  shows "moved (run es s0)
     = (\<exists>pre ev post. es = pre @ Move ev # post \<and> effective (run pre s0) (Move ev)
          \<and> Release \<notin> set post)"
    (is "_ = ?Q es")
proof (induction es rule: rev_induct)
  case Nil
  with assms show ?case by simp
next
  case (snoc e es)
  have "?Q (es @ [e]) = (e \<noteq> Release \<and> (?Q es \<or> effective (run es s0) e))"
  proof
    assume "?Q (es @ [e])"
    then obtain pre ev post where d: "es @ [e] = pre @ Move ev # post"
      and eff: "effective (run pre s0) (Move ev)" and nr: "Release \<notin> set post"
      by blast
    show "e \<noteq> Release \<and> (?Q es \<or> effective (run es s0) e)"
    proof (cases post rule: rev_cases)
      case Nil
      with d have "es = pre" "e = Move ev" by simp_all
      with eff show ?thesis by simp
    next
      case (snoc post' x)
      with d have "es = pre @ Move ev # post'" "e = x" by simp_all
      with eff nr snoc show ?thesis by auto
    qed
  next
    assume a: "e \<noteq> Release \<and> (?Q es \<or> effective (run es s0) e)"
    then consider "?Q es" | "effective (run es s0) e" by blast
    then show "?Q (es @ [e])"
    proof cases
      case 1
      then obtain pre ev post where "es = pre @ Move ev # post"
        "effective (run pre s0) (Move ev)" "Release \<notin> set post"
        by blast
      with a have "es @ [e] = pre @ Move ev # (post @ [e]) \<and> effective (run pre s0) (Move ev)
          \<and> Release \<notin> set (post @ [e])" by auto
      then show ?thesis by blast
    next
      case 2
      then obtain ev where "e = Move ev" using effective_is_Move by blast
      with 2 have "es @ [e] = es @ Move ev # [] \<and> effective (run es s0) (Move ev)
          \<and> Release \<notin> set []" by simp
      then show ?thesis by blast
    qed
  qed
  with snoc.IH show ?case by (simp add: run_snoc moved_step_ev del: effective.simps)
qed

text \<open>
  C7. \<open>moved\<close> starts false, \<^verbatim>\<open>knobRelease\<close> always leaves it false, and after any run of
  the attachment it is true exactly when the run has an effective pointer move with no
  pointerup after it.
\<close>

theorem moved_iff_effective_since_release:
  "\<not> moved (knobdrag e p lockCursor w) \<and>
   \<not> moved (knobRelease s) \<and>
   moved (run es (knobdrag e p lockCursor w))
     = (\<exists>pre ev post. es = pre @ Move ev # post
          \<and> effective (run pre (knobdrag e p lockCursor w)) (Move ev) \<and> Release \<notin> set post)"
  using moved_run_snoc [of "knobdrag e p lockCursor w" es] by simp

theorem moved_iff_effective_since_release_witness:
  "moved (run [Down (pointer0 (Fin 0)), Move (pointer0 (Fin 70))]
       (knobdrag 0 example_params False empty_world)) \<and>
   \<not> moved (run [Down (pointer0 (Fin 0)), Move (pointer0 (Fin 70)), Release]
       (knobdrag 0 example_params False empty_world))"
proof -
  let ?s0 = "knobdrag 0 example_params False empty_world"
  have e: "effective (run [Down (pointer0 (Fin 0))] ?s0) (Move (pointer0 (Fin 70)))"
    by code_simp
  have "[Down (pointer0 (Fin 0)), Move (pointer0 (Fin 70))]
          = [Down (pointer0 (Fin 0))] @ Move (pointer0 (Fin 70)) # []
      \<and> effective (run [Down (pointer0 (Fin 0))] ?s0) (Move (pointer0 (Fin 70)))
      \<and> Release \<notin> set []"
    using e by simp
  then have a: "moved (run [Down (pointer0 (Fin 0)), Move (pointer0 (Fin 70))] ?s0)"
    using moved_iff_effective_since_release [of 0 example_params False empty_world ?s0
        "[Down (pointer0 (Fin 0)), Move (pointer0 (Fin 70))]"]
    by blast
  have b: "\<not> moved (run [Down (pointer0 (Fin 0)), Move (pointer0 (Fin 70)), Release] ?s0)"
    by code_simp
  from a b show ?thesis by blast
qed

section \<open>The accumulated raw value\<close>

lemma rawValue_step_ev: "rawValue s \<noteq> None \<Longrightarrow> rawValue (step_ev e s) \<noteq> None"
  by (cases e) (auto simp: knobMove_def knobMove_update_def Let_def)

lemma rawValue_run: "rawValue s \<noteq> None \<Longrightarrow> rawValue (run es s) \<noteq> None"
proof (induction es arbitrary: s)
  case Nil
  then show ?case by simp
next
  case (Cons a es)
  from Cons.prems have "rawValue (step_ev a s) \<noteq> None" by (rule rawValue_step_ev)
  then have "rawValue (run es (step_ev a s)) \<noteq> None" by (rule Cons.IH)
  then show ?case by simp
qed



text \<open>
  C9. Once \<open>rawValue\<close> is set, no run of the attachment makes it null again; a release and
  a write to the store from outside leave it as it is; the function that \<^verbatim>\<open>knobMove\<close> gives
  to the store ignores the store's value; and an effective move continues from the
  previous clamped raw value.
\<close>

theorem rawValue_never_resynchronised:
  assumes "rawValue s = Some r"
  shows "rawValue (run es s) \<noteq> None \<and>
         rawValue (knobRelease s) = Some r \<and>
         rawValue (step_ev (StoreSet st v) s) = Some r \<and>
         knobMove_update my v1 s = knobMove_update my v2 s \<and>
         (effective s (Move ev) \<longrightarrow>
            rawValue (knobMove ev s)
              = Some (clamp (min_p (params s)) (jsub r (scaleMovement s (movementY ev)))
                       (max_p (params s))))"
  using assms rawValue_run [of s es]
  by (simp add: knobMove_effective knobMove_update_def scaleMovement_def Let_def
           del: effective.simps)

text \<open>
  After a first move of 70 pixels (raw value 4.1) the pointer is released and the store
  is set to 9 from outside; the next move of 70 pixels gives 3.1999999999999997, not 8.1.
\<close>

theorem rawValue_never_resynchronised_witness:
  "rawValue (run [Down (pointer0 (Fin 0)), Move (pointer0 (Fin 70)), Release, StoreSet 0 (Fin 9)]
      (knobdrag 0 example_params False empty_world)) = Some (rnd (41 / 10)) \<and>
   rawValue (run [Down (pointer0 (Fin 0)), Move (pointer0 (Fin 70)), Release, StoreSet 0 (Fin 9),
        Down (pointer0 (Fin 0)), Move (pointer0 (Fin 70))]
      (knobdrag 0 example_params False empty_world)) = Some (Fin (7205759403792793 / 2251799813685248))"
proof -
  let ?s = "run [Down (pointer0 (Fin 0)), Move (pointer0 (Fin 70)), Release, StoreSet 0 (Fin 9),
        Down (pointer0 (Fin 0))] (knobdrag 0 example_params False empty_world)"
  let ?ev = "pointer0 (Fin 70)"
  have h: "rawValue ?s = Some (rnd (41 / 10))" by code_simp
  have e: "effective ?s (Move ?ev)" by code_simp
  have c: "clamp (min_p (params ?s)) (jsub (rnd (41 / 10)) (scaleMovement ?s (movementY ?ev)))
             (max_p (params ?s)) = Fin (7205759403792793 / 2251799813685248)"
    by code_simp
  from rawValue_never_resynchronised [OF h, of "[]" 0 "Fin 0" "Fin 0" "Fin 0" "Fin 0" ?ev] e
  have "rawValue (knobMove ?ev ?s) = Some (Fin (7205759403792793 / 2251799813685248))"
    unfolding c by blast
  moreover have "rawValue (run [Down (pointer0 (Fin 0)), Move (pointer0 (Fin 70)), Release,
      StoreSet 0 (Fin 9)] (knobdrag 0 example_params False empty_world)) = Some (rnd (41 / 10))"
    by code_simp
  ultimately show ?thesis by simp
qed




section \<open>The pointer lock follows the options\<close>

lemma set_listeners_add:
  "set (listeners (addEventListener t ty h w) t')
     = (if t' = t then insert (ty, h) (set (listeners w t')) else set (listeners w t'))"
  by (auto simp: addEventListener_def)

lemma set_listeners_remove:
  "set (listeners (removeEventListener t ty h w) t')
     = (if t' = t then set (listeners w t') - {(ty, h)} else set (listeners w t'))"
  by (auto simp: removeEventListener_def)

lemma closures_listener [simp]:
  "closures (addEventListener t ty h w) = closures w"
  "closures (removeEventListener t ty h w) = closures w"
  by (simp_all add: addEventListener_def removeEventListener_def)

lemma fresh_add:
  "fresh_world w \<Longrightarrow> (case closure_id h of None \<Rightarrow> True | Some k \<Rightarrow> k < closures w)
   \<Longrightarrow> fresh_world (addEventListener t ty h w)"
  unfolding fresh_world_def by (auto simp: set_listeners_add split: if_splits)

lemma fresh_remove:
  "fresh_world w \<Longrightarrow> fresh_world (removeEventListener t ty h w)"
  unfolding fresh_world_def by (auto simp: set_listeners_remove split: if_splits)

lemma fresh_Suc:
  "fresh_world w \<Longrightarrow> fresh_world (w\<lparr>closures := Suc (closures w)\<rparr>)"
  unfolding fresh_world_def by (auto intro: less_SucI)

lemma fresh_destroy_action: "fresh_world w \<Longrightarrow> fresh_world (destroy_action a w)"
  by (cases a) (simp_all add: fresh_remove Let_def)

lemma closures_destroy_action [simp]: "closures (destroy_action a w) = closures w"
  by (cases a) (simp_all add: Let_def)

lemma fresh_pointerlock: "fresh_world w \<Longrightarrow> fresh_world (snd (pointerlock e w))"
  by (simp add: pointerlock_def Let_def fresh_add fresh_Suc)

lemma pointerlock_result:
  "fst (pointerlock e w) = LockAction e (closures w)"
  "closures (snd (pointerlock e w)) = Suc (closures w)"
  "lock_installed e (closures w) (snd (pointerlock e w))"
  by (simp_all add: pointerlock_def Let_def lock_installed_def set_listeners_add)

lemma fresh_pointercapture: "fresh_world w \<Longrightarrow> fresh_world (snd (pointercapture e w))"
  by (simp add: pointercapture_def Let_def fresh_add fresh_Suc)

lemma pointercapture_result:
  "closures (snd (pointercapture e w)) = Suc (closures w)"
  by (simp_all add: pointercapture_def Let_def)

lemma lock_removed_destroy:
  "lock_removed e k (destroy_action (LockAction e k) w)"
  by (simp add: lock_removed_def set_listeners_remove Let_def)

lemma lock_removed_pointerlock:
  "lock_removed e k w \<Longrightarrow> k < closures w \<Longrightarrow> lock_removed e k (snd (pointerlock e' w))"
  by (auto simp: lock_removed_def pointerlock_def Let_def set_listeners_add)

lemma lock_entry_ok_callback:
  assumes "lock_entry_ok s"
  shows "lock_entry_ok (options_callback b s)"
proof -
  let ?w1 = "case map_of (actions s) ''pointerlock'' of None \<Rightarrow> world s
             | Some a \<Rightarrow> destroy_action a (world s)"
  from assms have f1: "fresh_world ?w1"
    by (auto simp: lock_entry_ok_def fresh_destroy_action split: option.splits)
  have c1: "closures ?w1 = closures (world s)" by (simp split: option.splits)
  show ?thesis
  proof (cases b)
    case True
    have "options_callback b s = s\<lparr>actions := AList.update ''pointerlock'' (fst (pointerlock (elem s) ?w1)) (actions s),
        world := snd (pointerlock (elem s) ?w1)\<rparr>"
      using True by (simp add: options_callback_def Let_def split: prod.splits)
    then show ?thesis using f1 c1
      by (simp add: lock_entry_ok_def fresh_pointerlock pointerlock_result update_conv')
  next
    case False
    then have "options_callback b s = s\<lparr>actions := AList.delete ''pointerlock'' (actions s), world := ?w1\<rparr>"
      by (simp add: options_callback_def Let_def)
    then show ?thesis using f1 by (simp add: lock_entry_ok_def delete_conv')
  qed
qed


lemma fresh_fold_destroy:
  "fresh_world w \<Longrightarrow> fresh_world (fold (\<lambda>(name, a). destroy_action a) as w)"
  by (induction as arbitrary: w) (auto simp: fresh_destroy_action)

lemma closures_fold_destroy [simp]:
  "closures (fold (\<lambda>(name, a). destroy_action a) as w) = closures w"
  by (induction as arbitrary: w) auto

lemma fresh_writable_set: "fresh_world (writable_set st v w) = fresh_world w"
  by (simp add: writable_set_def fresh_world_def)

lemma closures_writable_set [simp]: "closures (writable_set st v w) = closures w"
  by (simp add: writable_set_def)

lemma lock_entry_ok_step_ev:
  assumes "lock_entry_ok s"
  shows "lock_entry_ok (step_ev e s)"
proof (cases e)
  case (Move ev)
  have "listeners (world (knobMove ev s)) = listeners (world s)"
    "closures (world (knobMove ev s)) = closures (world s)"
    by (simp_all add: knobMove_def knobMove_update_def Let_def writable_set_def)
  with assms Move show ?thesis by (simp add: lock_entry_ok_def fresh_world_def)
next
  case Release
  with assms show ?thesis
    by (simp add: knobRelease_def select_def lock_entry_ok_def fresh_world_def)
next
  case (Notify b)
  with assms show ?thesis by (simp add: lock_entry_ok_callback)
next
  case (Update p)
  with assms show ?thesis by (simp add: lock_entry_ok_def)
next
  case Destroy
  with assms show ?thesis
    by (simp add: destroy_def Let_def lock_entry_ok_def fresh_remove fresh_fold_destroy)
next
  case (Down ev)
  with assms show ?thesis by (simp add: pointerDown_def lock_entry_ok_def fresh_world_def)
next
  case LockChanged
  with assms show ?thesis by (simp add: lockChange_def lock_entry_ok_def fresh_add fresh_remove)
next
  case (StoreSet st v)
  with assms show ?thesis by (simp add: lock_entry_ok_def fresh_writable_set)
next
  case (LoseCapture pid)
  with assms show ?thesis by (simp add: lock_entry_ok_def fresh_world_def)
next
  case (SetLock l)
  with assms show ?thesis by (simp add: lock_entry_ok_def fresh_world_def)
qed

lemma lock_entry_ok_run: "lock_entry_ok s \<Longrightarrow> lock_entry_ok (run es s)"
  by (induction es arbitrary: s) (simp_all add: lock_entry_ok_step_ev)

lemma callback_entry:
  "(map_of (actions (options_callback b s)) ''pointerlock'' \<noteq> None) = b \<and>
   (b \<longrightarrow> (\<exists>k. map_of (actions (options_callback b s)) ''pointerlock'' = Some (LockAction (elem s) k)
            \<and> lock_installed (elem s) k (world (options_callback b s))))"
proof (cases b)
  case True
  let ?w1 = "case map_of (actions s) ''pointerlock'' of None \<Rightarrow> world s
             | Some a \<Rightarrow> destroy_action a (world s)"
  have "options_callback b s = s\<lparr>actions := AList.update ''pointerlock'' (fst (pointerlock (elem s) ?w1)) (actions s),
      world := snd (pointerlock (elem s) ?w1)\<rparr>"
    using True by (simp add: options_callback_def Let_def split: prod.splits)
  with True show ?thesis by (simp add: update_conv' pointerlock_result)
next
  case False
  then show ?thesis by (simp add: options_callback_def Let_def delete_conv')
qed

lemma callback_removes_old:
  assumes "map_of (actions s) ''pointerlock'' = Some (LockAction e k)" and "k < closures (world s)"
  shows "lock_removed e k (world (options_callback b s))"
proof (cases b)
  case True
  let ?w1 = "destroy_action (LockAction e k) (world s)"
  have "options_callback b s = s\<lparr>actions := AList.update ''pointerlock'' (fst (pointerlock (elem s) ?w1)) (actions s),
      world := snd (pointerlock (elem s) ?w1)\<rparr>"
    using True assms by (simp add: options_callback_def Let_def split: prod.splits)
  moreover have "lock_removed e k (snd (pointerlock (elem s) ?w1))"
    using assms(2) by (intro lock_removed_pointerlock lock_removed_destroy) simp
  ultimately show ?thesis by simp
next
  case False
  with assms have "world (options_callback b s) = destroy_action (LockAction e k) (world s)"
    by (simp add: options_callback_def Let_def)
  then show ?thesis by (simp only: lock_removed_destroy)
qed

lemma lock_installed_add:
  "lock_installed e k w \<Longrightarrow> lock_installed e k (addEventListener t ty h w)"
  by (auto simp: lock_installed_def set_listeners_add)

lemma lock_entry_ok_knobdrag:
  assumes "fresh_world w"
  shows "lock_entry_ok (knobdrag e p b w)"
proof -
  let ?k = "closures w"
  let ?w1 = "snd (pointercapture e (w\<lparr>closures := Suc ?k\<rparr>))"
  let ?s0 = "\<lparr>elem = e, self = ?k, params = p,
      actions = [(''pointercapture'', fst (pointercapture e (w\<lparr>closures := Suc ?k\<rparr>)))],
      range_k = jsub (max_p p) (min_p p), scaleFactor = jdiv (space p) (jsub (max_p p) (min_p p)),
      rawValue = None, moved = False, world = ?w1\<rparr>"
  let ?s1 = "options_callback b ?s0"
  have k: "knobdrag e p b w = ?s1\<lparr>world := addEventListener (Elem e) ''pointerup'' (KnobReleaseH ?k)
      (addEventListener (Elem e) ''pointermove'' (KnobMoveH ?k) (world ?s1))\<rparr>"
    by (simp add: knobdrag_def Let_def split: prod.splits)
  have "fresh_world ?w1" using assms fresh_Suc [of w] by (simp add: fresh_pointercapture)
  then have "lock_entry_ok ?s0" by (simp add: lock_entry_ok_def)
  then have ok1: "lock_entry_ok ?s1" by (rule lock_entry_ok_callback)
  have "?k < closures ?w1" using pointercapture_result [of e "w\<lparr>closures := Suc ?k\<rparr>"] by simp
  moreover have "closures ?w1 \<le> closures (world ?s1)"
    by (simp add: options_callback_def Let_def split_beta pointerlock_result)
  ultimately have "?k < closures (world ?s1)" by simp
  with ok1 show ?thesis
    unfolding k by (simp add: lock_entry_ok_def fresh_add)
qed

text \<open>
  C6. A notification of the options store leaves a \<open>pointerlock\<close> entry in \<open>actions\<close>
  exactly when the notified \<open>lockCursor\<close> is true, and then the three listeners of that
  entry are registered; the listeners of the entry that was there before are removed.
  The same holds for the first notification, which \<^verbatim>\<open>subscribe\<close> delivers during the
  attachment.
\<close>

theorem notification_governs_pointerlock:
  assumes "fresh_world w"
    and "s = run es (knobdrag e p lockCursor0 w)"
    and "s' = options_callback lockCursor s"
  shows "(map_of (actions s') ''pointerlock'' \<noteq> None) = lockCursor \<and>
         (lockCursor \<longrightarrow>
            (\<exists>k. map_of (actions s') ''pointerlock'' = Some (LockAction e k)
                 \<and> lock_installed e k (world s'))) \<and>
         (\<forall>a. map_of (actions s) ''pointerlock'' = Some a
              \<longrightarrow> (\<exists>k. a = LockAction e k \<and> lock_removed e k (world s'))) \<and>
         (map_of (actions (knobdrag e p lockCursor0 w)) ''pointerlock'' \<noteq> None) = lockCursor0 \<and>
         (lockCursor0 \<longrightarrow>
            (\<exists>k. map_of (actions (knobdrag e p lockCursor0 w)) ''pointerlock'' = Some (LockAction e k)
                 \<and> lock_installed e k (world (knobdrag e p lockCursor0 w))))"
proof -
  have ok: "lock_entry_ok s"
    using assms(1,2) by (simp add: lock_entry_ok_knobdrag lock_entry_ok_run)
  have es: "elem s = e" using assms(2) by simp
  have a: "(map_of (actions s') ''pointerlock'' \<noteq> None) = lockCursor \<and>
         (lockCursor \<longrightarrow>
            (\<exists>k. map_of (actions s') ''pointerlock'' = Some (LockAction e k)
                 \<and> lock_installed e k (world s')))"
    using callback_entry [of lockCursor s] es assms(3) by simp
  have b: "\<forall>a. map_of (actions s) ''pointerlock'' = Some a
              \<longrightarrow> (\<exists>k. a = LockAction e k \<and> lock_removed e k (world s'))"
  proof (intro allI impI)
    fix a assume m: "map_of (actions s) ''pointerlock'' = Some a"
    with ok es obtain k where k: "a = LockAction e k" "k < closures (world s)"
      by (auto simp: lock_entry_ok_def)
    with m have "lock_removed e k (world s')"
      unfolding assms(3) by (intro callback_removes_old) simp_all
    with k show "\<exists>k. a = LockAction e k \<and> lock_removed e k (world s')" by blast
  qed
  let ?k = "closures w"
  let ?s0 = "\<lparr>elem = e, self = ?k, params = p,
      actions = [(''pointercapture'', fst (pointercapture e (w\<lparr>closures := Suc ?k\<rparr>)))],
      range_k = jsub (max_p p) (min_p p), scaleFactor = jdiv (space p) (jsub (max_p p) (min_p p)),
      rawValue = None, moved = False, world = snd (pointercapture e (w\<lparr>closures := Suc ?k\<rparr>))\<rparr>"
  let ?s1 = "options_callback lockCursor0 ?s0"
  have k: "knobdrag e p lockCursor0 w = ?s1\<lparr>world := addEventListener (Elem e) ''pointerup'' (KnobReleaseH ?k)
      (addEventListener (Elem e) ''pointermove'' (KnobMoveH ?k) (world ?s1))\<rparr>"
    by (simp add: knobdrag_def Let_def split: prod.splits)
  have c: "(map_of (actions (knobdrag e p lockCursor0 w)) ''pointerlock'' \<noteq> None) = lockCursor0 \<and>
         (lockCursor0 \<longrightarrow>
            (\<exists>k. map_of (actions (knobdrag e p lockCursor0 w)) ''pointerlock'' = Some (LockAction e k)
                 \<and> lock_installed e k (world (knobdrag e p lockCursor0 w))))"
    unfolding k using callback_entry [of lockCursor0 ?s0]
    by (auto simp: lock_installed_add)
  from a b c show ?thesis by blast
qed

theorem notification_governs_pointerlock_witness:
  "fresh_world empty_world \<and>
   map_of (actions (run [Notify True] (knobdrag 0 example_params False empty_world))) ''pointerlock''
     = Some (LockAction 0 2) \<and>
   map_of (actions (options_callback True
        (run [Notify True] (knobdrag 0 example_params False empty_world)))) ''pointerlock''
     = Some (LockAction 0 3) \<and>
   lock_installed 0 3 (world (options_callback True
        (run [Notify True] (knobdrag 0 example_params False empty_world)))) \<and>
   lock_removed 0 2 (world (options_callback True
        (run [Notify True] (knobdrag 0 example_params False empty_world))))"
proof -
  let ?s = "run [Notify True] (knobdrag 0 example_params False empty_world)"
  let ?s' = "options_callback True ?s"
  have h: "fresh_world empty_world" by (simp add: fresh_world_def empty_world_def)
  have m: "map_of (actions ?s) ''pointerlock'' = Some (LockAction 0 2)" by code_simp
  have m': "map_of (actions ?s') ''pointerlock'' = Some (LockAction 0 3)" by code_simp
  note t = notification_governs_pointerlock [where w = empty_world and es = "[Notify True]"
      and e = 0 and p = example_params and ?lockCursor0.0 = False and lockCursor = True,
      OF h refl refl]
  from t obtain k where k: "map_of (actions ?s') ''pointerlock'' = Some (LockAction 0 k)"
    "lock_installed 0 k (world ?s')" by blast
  from k(1) m' have "k = 3" by simp
  with k(2) have i: "lock_installed 0 3 (world ?s')" by simp
  from t m obtain k0 where k0: "LockAction 0 2 = LockAction 0 k0" "lock_removed 0 k0 (world ?s')"
    by blast
  then have r: "lock_removed 0 2 (world ?s')" by simp
  from h m m' i r show ?thesis by blast
qed

section \<open>Stepping\<close>

lemma floor_bounds:
  fixes r s :: real
  assumes "0 < s"
  shows "s * of_int \<lfloor>r / s\<rfloor> \<le> r" and "r < s * (of_int \<lfloor>r / s\<rfloor> + 1)"
proof -
  have "of_int \<lfloor>r / s\<rfloor> * s \<le> r"
    unfolding pos_le_divide_eq [OF assms, symmetric] by (rule of_int_floor_le)
  then show "s * of_int \<lfloor>r / s\<rfloor> \<le> r" by (simp add: mult.commute)
  have "r < (of_int \<lfloor>r / s\<rfloor> + 1) * s"
    unfolding pos_divide_less_eq [OF assms, symmetric] by linarith
  then show "r < s * (of_int \<lfloor>r / s\<rfloor> + 1)" by (simp add: mult.commute)
qed

lemma jrem_nonneg:
  assumes "0 < s" and "0 \<le> r"
  shows "jrem (Fin r) (Fin s) = Fin (r - s * of_int \<lfloor>r / s\<rfloor>)"
proof (cases "r = 0")
  case True
  with assms show ?thesis by (simp add: jrem_def)
next
  case False
  with assms have "0 \<le> r / s" by simp
  then have "trunc (r / s) = \<lfloor>r / s\<rfloor>" by (simp add: trunc_def)
  with assms False show ?thesis by (simp add: jrem_def Let_def)
qed

lemma jsub_jrem_nonneg:
  assumes "0 < s" and "0 \<le> r"
  shows "jsub (Fin r) (jrem (Fin r) (Fin s)) = rnd (s * of_int \<lfloor>r / s\<rfloor>)"
  using assms by (simp add: jrem_nonneg jsub_def jadd_def)

lemma jsub_zero_double: "is_double r \<Longrightarrow> jsub (Fin r) (Fin 0) = Fin r"
  by (simp add: jsub_def jadd_def is_double_def)

text \<open>
  C2 says that \<^verbatim>\<open>floorToStep(v)\<close> is \<open>v - (v mod step)\<close>, the largest multiple of \<open>step\<close> below
  or at \<open>v\<close>, for every \<open>v\<close> and every positive \<open>step\<close>. With step 1 the value 0.9999995 is
  returned as it is, because its remainder is within 0.000001 of the step. With step 3
  the value -1 gives 0, which is above it, because \<^verbatim>\<open>%\<close> truncates towards zero. And with
  step 0.1 the value 0.35 gives 0.30000000000000004, which lies strictly between three
  and four times the step, because the subtraction is rounded.
\<close>

theorem floorToStep_not_largest_multiple:
  "step example_params2 = Fin 1 \<and>
   floorToStep example_params2 (Fin (9007194751141365 / 9007199254740992))
     = Fin (9007194751141365 / 9007199254740992) \<and>
   (9007194751141365 / 9007199254740992 :: real)
     \<noteq> 1 * of_int \<lfloor>(9007194751141365 / 9007199254740992) / (1::real)\<rfloor> \<and>
   step example_params = Fin 3 \<and>
   floorToStep example_params (Fin (- 1)) = Fin 0 \<and>
   \<not> (0::real) \<le> - 1 \<and>
   rnd (1 / 10) = Fin (3602879701896397 / 36028797018963968) \<and>
   rnd (35 / 100) = Fin (3152519739159347 / 9007199254740992) \<and>
   floorToStep (example_params2\<lparr>step := rnd (1 / 10)\<rparr>) (rnd (35 / 100))
     = Fin (1351079888211149 / 4503599627370496) \<and>
   (3 * (3602879701896397 / 36028797018963968) :: real)
     < 1351079888211149 / 4503599627370496 \<and>
   (1351079888211149 / 4503599627370496 :: real)
     < 4 * (3602879701896397 / 36028797018963968)"
proof -
  have a: "floorToStep example_params2 (Fin (9007194751141365 / 9007199254740992))
     = Fin (9007194751141365 / 9007199254740992)"
    by code_simp
  have b: "floorToStep example_params (Fin (- 1)) = Fin 0" by code_simp
  have c: "step example_params2 = Fin 1" "step example_params = Fin 3"
    by code_simp+
  have "\<lfloor>(9007194751141365 / 9007199254740992) / (1::real)\<rfloor> = 0"
    by (simp add: floor_eq_iff)
  then have d: "(9007194751141365 / 9007199254740992 :: real)
     \<noteq> 1 * of_int \<lfloor>(9007194751141365 / 9007199254740992) / (1::real)\<rfloor>"
    by simp
  have e: "\<not> (0::real) \<le> - 1" by simp
  have f: "rnd (1 / 10) = Fin (3602879701896397 / 36028797018963968)"
    "rnd (35 / 100) = Fin (3152519739159347 / 9007199254740992)"
    by code_simp+
  have g: "floorToStep (example_params2\<lparr>step := rnd (1 / 10)\<rparr>) (rnd (35 / 100))
     = Fin (1351079888211149 / 4503599627370496)"
    by code_simp
  have h: "(3 * (3602879701896397 / 36028797018963968) :: real)
     < 1351079888211149 / 4503599627370496"
    "(1351079888211149 / 4503599627370496 :: real)
     < 4 * (3602879701896397 / 36028797018963968)"
    by simp_all
  from a b c d e f g h show ?thesis by blast
qed

text \<open>
  C2 as amended. An effective \<^verbatim>\<open>knobMove\<close> sets the value store to \<^verbatim>\<open>floorToStep\<close> of the new
  \<open>rawValue\<close>. For a step \<open>s > 0\<close> and a double \<open>v \<ge> 0\<close>, \<^verbatim>\<open>floorToStep(v)\<close> is \<open>v\<close> itself when
  \<^verbatim>\<open>v % step + 0.000001 > step\<close>, and otherwise \<^verbatim>\<open>v - v % step\<close>. There \<^verbatim>\<open>v % step\<close> is exactly
  \<open>v - s * \<lfloor>v / s\<rfloor>\<close>, and the difference is the double nearest to \<open>s * \<lfloor>v / s\<rfloor>\<close>, the largest
  multiple of the step that is at most \<open>v\<close>; it need not be a multiple itself.
\<close>

theorem floorToStep_steps_nonneg:
  assumes "step p = Fin s" and "0 < s" and "0 \<le> r" and "is_double r"
  shows "(effective st (Move ev) \<longrightarrow>
            (\<exists>raw. rawValue (knobMove ev st) = Some raw \<and>
               world (knobMove ev st)
                 = writable_set (valueStore (params st)) (floorToStep (params st) raw) (world st))) \<and>
         floorToStep p (Fin r)
           = (if jgt (jadd (jrem (Fin r) (Fin s)) (rnd (1 / 1000000))) (Fin s) then Fin r
              else jsub (Fin r) (jrem (Fin r) (Fin s))) \<and>
         jrem (Fin r) (Fin s) = Fin (r - s * of_int \<lfloor>r / s\<rfloor>) \<and>
         jsub (Fin r) (jrem (Fin r) (Fin s)) = rnd (s * of_int \<lfloor>r / s\<rfloor>) \<and>
         s * of_int \<lfloor>r / s\<rfloor> \<le> r \<and>
         (\<forall>k::int. s * of_int k \<le> r \<longrightarrow> s * of_int k \<le> s * of_int \<lfloor>r / s\<rfloor>)"
proof -
  have a: "effective st (Move ev) \<longrightarrow>
            (\<exists>raw. rawValue (knobMove ev st) = Some raw \<and>
               world (knobMove ev st)
                 = writable_set (valueStore (params st)) (floorToStep (params st) raw) (world st))"
    by (simp add: knobMove_effective Let_def del: effective.simps)
  have b: "floorToStep p (Fin r)
           = (if jgt (jadd (jrem (Fin r) (Fin s)) (rnd (1 / 1000000))) (Fin s) then Fin r
              else jsub (Fin r) (jrem (Fin r) (Fin s)))"
    using assms(1) jsub_zero_double [OF assms(4)] by (simp add: floorToStep_def Let_def)
  have c: "jrem (Fin r) (Fin s) = Fin (r - s * of_int \<lfloor>r / s\<rfloor>)"
    using assms(2,3) by (rule jrem_nonneg)
  have d: "jsub (Fin r) (jrem (Fin r) (Fin s)) = rnd (s * of_int \<lfloor>r / s\<rfloor>)"
    using assms(2,3) by (rule jsub_jrem_nonneg)
  have e: "s * of_int \<lfloor>r / s\<rfloor> \<le> r" using assms(2) by (rule floor_bounds)
  have f: "\<forall>k::int. s * of_int k \<le> r \<longrightarrow> s * of_int k \<le> s * of_int \<lfloor>r / s\<rfloor>"
  proof (intro allI impI)
    fix k :: int assume "s * of_int k \<le> r"
    with assms(2) have "of_int k \<le> r / s" by (simp add: pos_le_divide_eq mult.commute)
    then have "k \<le> \<lfloor>r / s\<rfloor>" by (simp add: le_floor_iff)
    then have "(of_int k :: real) \<le> of_int \<lfloor>r / s\<rfloor>" by simp
    with assms(2) show "s * of_int k \<le> s * of_int \<lfloor>r / s\<rfloor>" by simp
  qed
  from a b c d e f show ?thesis by blast
qed

text \<open>
  The knob from 1 to 10 in steps of 3: a move of 70 pixels from 5 sets the store to
  \<^verbatim>\<open>floorToStep\<close> of the new raw value, which is 3.
\<close>

theorem floorToStep_steps_nonneg_witness:
  "step example_params = Fin 3 \<and> is_double 4 \<and>
   floorToStep example_params (Fin 4) = Fin 3 \<and>
   effective (run [Down (pointer0 (Fin 0))] (knobdrag 0 example_params False empty_world))
     (Move (pointer0 (Fin 70))) \<and>
   stores (world (knobMove (pointer0 (Fin 70))
     (run [Down (pointer0 (Fin 0))] (knobdrag 0 example_params False empty_world)))) 0 = Fin 3"
proof -
  let ?s = "run [Down (pointer0 (Fin 0))] (knobdrag 0 example_params False empty_world)"
  let ?ev = "pointer0 (Fin 70)"
  have h1: "step example_params = Fin 3" by code_simp
  have h2: "(0::real) < 3" by simp
  have h3: "(0::real) \<le> 4" by simp
  have h4: "is_double 4" by code_simp
  have h5: "effective ?s (Move ?ev)" by code_simp
  note t = floorToStep_steps_nonneg [OF h1 h2 h3 h4, where st = ?s and ev = ?ev]
  have g: "\<not> jgt (jadd (jrem (Fin 4) (Fin 3)) (rnd (1 / 1000000))) (Fin 3)" by code_simp
  from t have t1: "floorToStep example_params (Fin 4)
      = (if jgt (jadd (jrem (Fin 4) (Fin 3)) (rnd (1 / 1000000))) (Fin 3) then Fin 4
         else jsub (Fin 4) (jrem (Fin 4) (Fin 3)))"
    and t2: "jsub (Fin 4) (jrem (Fin 4) (Fin 3)) = rnd (3 * of_int \<lfloor>4 / (3::real)\<rfloor>)"
    by blast+
  have "\<lfloor>4 / (3::real)\<rfloor> = 1" by (simp add: floor_eq_iff)
  then have "rnd (3 * of_int \<lfloor>4 / (3::real)\<rfloor>) = rnd 3" by simp
  also have "rnd 3 = Fin 3" by code_simp
  finally have t3: "rnd (3 * of_int \<lfloor>4 / (3::real)\<rfloor>) = Fin 3" .
  from t1 g have "floorToStep example_params (Fin 4) = jsub (Fin 4) (jrem (Fin 4) (Fin 3))"
    by (simp only: if_False)
  with t2 t3 have v: "floorToStep example_params (Fin 4) = Fin 3" by (simp only:)
  from t h5 obtain raw where raw: "rawValue (knobMove ?ev ?s) = Some raw"
    "world (knobMove ?ev ?s)
       = writable_set (valueStore (params ?s)) (floorToStep (params ?s) raw) (world ?s)"
    by blast
  have r: "rawValue (knobMove ?ev ?s) = Some (rnd (41 / 10))" by code_simp
  with raw(1) have "raw = rnd (41 / 10)" by simp
  with raw(2) have "stores (world (knobMove ?ev ?s)) 0
     = stores (writable_set (valueStore (params ?s))
         (floorToStep (params ?s) (rnd (41 / 10))) (world ?s)) 0"
    by simp
  moreover have "stores (writable_set (valueStore (params ?s))
         (floorToStep (params ?s) (rnd (41 / 10))) (world ?s)) 0 = Fin 3"
    by code_simp
  ultimately have w: "stores (world (knobMove ?ev ?s)) 0 = Fin 3" by simp
  from h1 h4 v h5 w show ?thesis by blast
qed

section \<open>Bounds\<close>

text \<open>
  C1 asks that every value written by \<^verbatim>\<open>knobMove\<close> is in \<open>[min, max]\<close> when \<open>min \<le> max\<close>
  and \<open>step > 0\<close>. \<^verbatim>\<open>knobMove\<close> clamps \<open>rawValue\<close> to \<open>[min, max]\<close> and then writes
  \<^verbatim>\<open>floorToStep(rawValue)\<close>, which steps away from the clamped value again. The knob from 1
  to 10 in steps of 3, dragged down by 700 pixels from 5, has its raw value clamped to 1
  and sets the store to \<^verbatim>\<open>floorToStep(1)\<close>, which is 0 and below \<open>min\<close>.
\<close>

theorem written_value_below_min:
  "jle (min_p example_params) (max_p example_params) \<and> jgt (step example_params) (Fin 0) \<and>
   effective (run [Down (pointer0 (Fin 0))] (knobdrag 0 example_params False empty_world))
     (Move (pointer0 (Fin 700))) \<and>
   rawValue (knobMove (pointer0 (Fin 700))
      (run [Down (pointer0 (Fin 0))] (knobdrag 0 example_params False empty_world))) = Some (Fin 1) \<and>
   stores (world (knobMove (pointer0 (Fin 700))
      (run [Down (pointer0 (Fin 0))] (knobdrag 0 example_params False empty_world)))) 0 = Fin 0 \<and>
   \<not> jle (min_p example_params) (Fin 0)"
  by code_simp

end
